theory Spec2Isabelle
  imports Complex_Main
begin

section \<open>Data model of \<open>src/app/page.tsx\<close> (the version with typed, positioned blocks)\<close>

text \<open>
  \<^verbatim>\<open>export type BlockType = "blockA" | "blockB";\<close>
  The spec calls \<open>blockA\<close> the Prerequisite kind and \<open>blockB\<close> the Dependent kind.
\<close>

datatype BlockType = blockA | blockB

text \<open>
  \<^verbatim>\<open>export type Block = { id: string; type: BlockType; label: string;
                       x: number; y: number; showMessage?: boolean };\<close>
  The fields \<open>id\<close>, \<open>type\<close>, \<open>x\<close> and \<open>y\<close> carry the suffix \<open>_b\<close>. A JavaScript
  number is modelled as a real (rounding of doubles is not modelled); the optional
  field \<open>showMessage\<close> is \<open>None\<close> when absent.
\<close>

record Block =
  id_b :: string
  type_b :: BlockType
  label :: string
  x_b :: real
  y_b :: real
  showMessage :: "bool option"

text \<open>
  The React state of \<open>Home\<close>: \<open>blocks\<close>, \<open>history\<close>, \<open>currentIndex\<close> (the three
  \<open>useState\<close> cells) and \<open>blocksRef.current\<close>.
\<close>

record state =
  blocks :: "Block list"
  history :: "Block list list"
  currentIndex :: nat
  blocksRef :: "Block list"

text \<open>\<^verbatim>\<open>useState<Block[]>([]); useState<Block[][]>([[]]); useState(0); useRef<Block[]>([])\<close>\<close>

definition Home_init :: state where
  "Home_init = \<lparr>blocks = [], history = [[]], currentIndex = 0, blocksRef = []\<rparr>"

section \<open>The handlers of \<open>Home\<close>\<close>

text \<open>
  \<open>moveBlock\<close> (lines 457-465): the functional update maps over the previous blocks,
  replaces \<open>x\<close> and \<open>y\<close> of every block whose id matches, and stores the result in
  \<open>blocksRef.current\<close> too.
\<close>

definition moveBlock :: "string \<Rightarrow> real \<Rightarrow> real \<Rightarrow> state \<Rightarrow> state" where
  "moveBlock i x y s =
     (let updated = map (\<lambda>block. if id_b block = i then block\<lparr>x_b := x, y_b := y\<rparr> else block)
                        (blocks s)
      in s\<lparr>blocks := updated, blocksRef := updated\<rparr>)"

text \<open>
  \<open>toggleMessage\<close> (lines 467-473): \<open>!block.showMessage\<close> is \<open>true\<close> when the field is
  absent. \<open>blocksRef.current\<close> is not written here.
\<close>

definition truthy :: "bool option \<Rightarrow> bool" where
  "truthy v = (case v of None \<Rightarrow> False | Some c \<Rightarrow> c)"

definition toggleMessage :: "string \<Rightarrow> state \<Rightarrow> state" where
  "toggleMessage i s =
     s\<lparr>blocks := map (\<lambda>block. if id_b block = i
                                then block\<lparr>showMessage := Some (\<not> truthy (showMessage block))\<rparr>
                                else block) (blocks s)\<rparr>"

text \<open>
  The last three statements of \<open>handleDropBlock\<close> (lines 493-495), the history commit:
  \<^verbatim>\<open>const updatedHistory = [...history.slice(0, currentIndex + 1), newBlocks];
  setHistory(updatedHistory); setCurrentIndex(updatedHistory.length - 1);\<close>
  \<open>slice(0, n)\<close> keeps the first \<open>n\<close> elements and never fails.
\<close>

definition commit :: "Block list \<Rightarrow> state \<Rightarrow> state" where
  "commit newBlocks s =
     (let updatedHistory = take (currentIndex s + 1) (history s) @ [newBlocks]
      in s\<lparr>history := updatedHistory, currentIndex := length updatedHistory - 1\<rparr>)"

text \<open>
  The object literal of lines 481-487. The first argument is the string returned by the
  call \<open>uuidv4()\<close> of the external \<open>uuid\<close> package; \<open>showMessage\<close> is absent.
\<close>

definition newBlock :: "string \<Rightarrow> BlockType \<Rightarrow> real \<Rightarrow> real \<Rightarrow> Block" where
  "newBlock uuid ty x y =
     \<lparr>id_b = uuid, type_b = ty,
      label = ''Block '' @ (if ty = blockA then ''A'' else ''B''),
      x_b = x, y_b = y, showMessage = None\<rparr>"

text \<open>
  \<open>handleDropBlock\<close> (lines 475-496). The first component of the result is the text
  passed to \<open>alert\<close>, \<open>None\<close> when no alert is raised (the drop is accepted).
\<close>

definition handleDropBlock ::
  "BlockType \<Rightarrow> real \<Rightarrow> real \<Rightarrow> string \<Rightarrow> state \<Rightarrow> string option \<times> state" where
  "handleDropBlock ty x y uuid s =
     (if ty = blockB \<and> \<not> list_ex (\<lambda>b. type_b b = blockA) (blocks s)
      then (Some ''Block B requires Block A first!'', s)
      else
        let newBlocks = blocks s @ [newBlock uuid ty x y]
        in (None, commit newBlocks (s\<lparr>blocks := newBlocks, blocksRef := newBlocks\<rparr>)))"

text \<open>
  A read \<open>history[newIndex]\<close>: \<open>undefined\<close> (here \<open>None\<close>) beyond the end of the array.
\<close>

definition at_index :: "'a list \<Rightarrow> nat \<Rightarrow> 'a option" where
  "at_index xs i = (if i < length xs then Some (xs ! i) else None)"

text \<open>
  \<open>handleUndo\<close> (lines 498-506) and \<open>handleRedo\<close> (lines 508-516). The result is
  \<open>None\<close> when \<open>history[newIndex]\<close> is \<open>undefined\<close>: \<open>blocks\<close> would then hold no
  \<open>Block[]\<close> and the next render fails on \<open>blocks.map\<close>. The guard of \<open>handleRedo\<close>
  compares with \<open>history.length - 1\<close>, which is \<open>-1\<close> for an empty array, so it is
  written over the integers.
\<close>

definition handleUndo :: "state \<Rightarrow> state option" where
  "handleUndo s =
     (if currentIndex s > 0
      then let newIndex = currentIndex s - 1
           in (case at_index (history s) newIndex of
                 None \<Rightarrow> None
               | Some prevState \<Rightarrow>
                   Some (s\<lparr>blocks := prevState, blocksRef := prevState, currentIndex := newIndex\<rparr>))
      else Some s)"

definition handleRedo :: "state \<Rightarrow> state option" where
  "handleRedo s =
     (if int (currentIndex s) < int (length (history s)) - 1
      then let newIndex = currentIndex s + 1
           in (case at_index (history s) newIndex of
                 None \<Rightarrow> None
               | Some nextState \<Rightarrow>
                   Some (s\<lparr>blocks := nextState, blocksRef := nextState, currentIndex := newIndex\<rparr>))
      else Some s)"

section \<open>Sessions: sequences of events delivered to \<open>Home\<close>\<close>

text \<open>
  A drop on the canvas (with the uuid drawn for it), a call of \<open>moveBlock\<close> from a hover
  handler, a right click on a block, and the two buttons.
\<close>

datatype event =
    Drop BlockType real real string
  | Move string real real
  | RightClick string
  | UndoClick
  | RedoClick

fun step :: "event \<Rightarrow> state \<Rightarrow> state option" where
  "step (Drop ty x y uuid) s = Some (snd (handleDropBlock ty x y uuid s))"
| "step (Move i x y) s = Some (moveBlock i x y s)"
| "step (RightClick i) s = Some (toggleMessage i s)"
| "step UndoClick s = handleUndo s"
| "step RedoClick s = handleRedo s"

fun run :: "event list \<Rightarrow> state \<Rightarrow> state option" where
  "run [] s = Some s"
| "run (e # es) s = (case step e s of None \<Rightarrow> None | Some s' \<Rightarrow> run es s')"

section \<open>\<open>CanvasBlock\<close>: the drag handlers of a block on the canvas\<close>

text \<open>
  What \<open>updateConnections\<close> reads of a \<open>div\<close>: \<open>offsetLeft\<close> and \<open>offsetTop\<close>, which
  the DOM gives as integers.
\<close>

record HTMLDivElement =
  offsetLeft :: int
  offsetTop :: int

text \<open>
  One mounted \<open>CanvasBlock\<close> component (lines 255-312): its prop \<open>block\<close>, and its two
  refs \<open>ref.current\<close> (the \<open>div\<close>, or null) and \<open>position.current\<close> (a pair \<open>(x, y)\<close>).
\<close>

record CanvasBlock =
  block :: Block
  ref_current :: "HTMLDivElement option"
  position_current :: "real \<times> real"

text \<open>
  The first render: \<^verbatim>\<open>useRef({ x: block.x, y: block.y })\<close>, and the \<open>ref\<close> callback stores
  the node.
\<close>

definition CanvasBlock_mount :: "Block \<Rightarrow> HTMLDivElement \<Rightarrow> CanvasBlock" where
  "CanvasBlock_mount b node =
     \<lparr>block = b, ref_current = Some node, position_current = (x_b b, y_b b)\<rparr>"

text \<open>
  The \<open>hover\<close> callback of the component's drop target (lines 271-278). It runs on the
  component \<open>c\<close> the pointer is over; \<open>item_id\<close> is \<open>item.id\<close>, the id of the block being
  dragged; \<open>delta\<close> is \<open>monitor.getDifferenceFromInitialOffset()\<close>, \<open>None\<close> for null.
\<close>

definition hover :: "CanvasBlock \<Rightarrow> string \<Rightarrow> (real \<times> real) option \<Rightarrow> state \<Rightarrow> state" where
  "hover c item_id delta s =
     (case ref_current c of
        None \<Rightarrow> s
      | Some node \<Rightarrow>
          (case delta of
             None \<Rightarrow> s
           | Some d \<Rightarrow>
               let newX = fst (position_current c) + fst d;
                   newY = snd (position_current c) + snd d
               in moveBlock item_id newX newY s))"

text \<open>
  The \<open>drop\<close> callback of the same drop target (lines 279-286), named \<open>drop_c\<close> here: it
  moves \<open>position.current\<close> of the component the pointer is released over.
\<close>

definition drop_c :: "CanvasBlock \<Rightarrow> (real \<times> real) option \<Rightarrow> CanvasBlock" where
  "drop_c c delta =
     (case delta of
        None \<Rightarrow> c
      | Some d \<Rightarrow> c\<lparr>position_current := (fst (position_current c) + fst d,
                                            snd (position_current c) + snd d)\<rparr>)"

section \<open>\<open>ConnectionLines\<close>: the nearest prerequisite of every dependent block\<close>

text \<open>
  \<open>refs\<close> is the object \<open>blockRefs.current\<close>: \<open>refs[id]\<close> is the element that
  \<open>registerRef\<close> stored under the id, or \<open>undefined\<close>/null (here \<open>None\<close>).
\<close>

type_synonym refs = "string \<Rightarrow> HTMLDivElement option"

text \<open>
  The callback of \<open>aBlocks.reduce\<close> (lines 331-343); the accumulator \<open>nearest\<close> is null
  or the object \<open>{ a, dist }\<close>, here a pair. The source's \<open>by\<close> is written \<open>b_y\<close>.
  \<open>Math.hypot\<close> is a built-in of the JavaScript engine: it returns a double that
  approximates the root of the sum of squares, and which double depends on the engine.
  It is the first argument \<open>hypot\<close> of the functions that call it. Its results on the
  integer offsets are finite doubles, compared with \<open><\<close>; they are reals here.
\<close>

definition nearer ::
  "(real \<Rightarrow> real \<Rightarrow> real) \<Rightarrow> refs \<Rightarrow> Block \<Rightarrow> (Block \<times> real) option \<Rightarrow> Block
     \<Rightarrow> (Block \<times> real) option" where
  "nearer hypot refs b nearest a =
     (case refs (id_b a) of
        None \<Rightarrow> nearest
      | Some aRef \<Rightarrow>
          (case refs (id_b b) of
             None \<Rightarrow> nearest
           | Some bRef \<Rightarrow>
               let ax = offsetLeft aRef; ay = offsetTop aRef;
                   bx = offsetLeft bRef; b_y = offsetTop bRef;
                   dist = hypot (of_int (ax - bx)) (of_int (ay - b_y))
               in (case nearest of
                     None \<Rightarrow> Some (a, dist)
                   | Some n \<Rightarrow> if dist < snd n then Some (a, dist) else nearest)))"

definition nearestA ::
  "(real \<Rightarrow> real \<Rightarrow> real) \<Rightarrow> refs \<Rightarrow> Block list \<Rightarrow> Block \<Rightarrow> (Block \<times> real) option" where
  "nearestA hypot refs aBlocks b = foldl (nearer hypot refs b) None aBlocks"

text \<open>
  \<open>updateConnections\<close> (lines 325-354): the list \<open>newPairs\<close> handed to \<open>setPairs\<close>. The
  canvas offset it also stores only shifts the drawing.
\<close>

definition updateConnections ::
  "(real \<Rightarrow> real \<Rightarrow> real) \<Rightarrow> Block list \<Rightarrow> refs \<Rightarrow> (Block \<times> Block) list" where
  "updateConnections hypot blks refs =
     (let aBlocks = filter (\<lambda>b. type_b b = blockA) blks;
          bBlocks = filter (\<lambda>b. type_b b = blockB) blks
      in concat (map (\<lambda>b. case nearestA hypot refs aBlocks b of
                             None \<Rightarrow> []
                           | Some n \<Rightarrow> [(fst n, b)]) bBlocks))"

section \<open>The earlier draft of the page (lines 1-214 of \<open>page.tsx\<close>, and \<open>part_001\<close>)\<close>

text \<open>
  \<^verbatim>\<open>type Block = { id: string; label: string };\<close> with the two palette entries
  \<open>BLOCKS\<close>. In this draft the dropped item is the palette entry itself.
\<close>

record Block_draft =
  id_d :: string
  label_d :: string

definition BLOCKS_draft :: "Block_draft list" where
  "BLOCKS_draft = [\<lparr>id_d = ''blockA'', label_d = ''Block A''\<rparr>,
                   \<lparr>id_d = ''blockB'', label_d = ''Block B''\<rparr>]"

record state_draft =
  blocks_d :: "Block_draft list"
  history_d :: "Block_draft list list"
  currentIndex_d :: nat
  blocksRef_d :: "Block_draft list"

definition Home_init_draft :: state_draft where
  "Home_init_draft = \<lparr>blocks_d = [], history_d = [[]], currentIndex_d = 0, blocksRef_d = []\<rparr>"

text \<open>
  \<open>handleDropBlock\<close> of the draft (lines 128-143; the same code with other variable
  names in \<open>part_001\<close>, lines 178-193). The blocks are read through \<open>blocksRef.current\<close>;
  \<open>history\<close> and \<open>currentIndex\<close> are the variables of the render that built the
  function, here its first two arguments.
\<close>

definition handleDropBlock_draft ::
  "Block_draft list list \<Rightarrow> nat \<Rightarrow> Block_draft \<Rightarrow> state_draft
     \<Rightarrow> string option \<times> state_draft" where
  "handleDropBlock_draft history_c currentIndex_c blk s =
     (let currentBlocks = map id_d (blocksRef_d s)
      in if id_d blk = ''blockB'' \<and> ''blockA'' \<notin> set currentBlocks
         then (Some ''Block B requires Block A first!'', s)
         else
           let newBlocks = blocksRef_d s @ [blk];
               updatedHistory = take (currentIndex_c + 1) history_c @ [newBlocks]
           in (None, s\<lparr>blocksRef_d := newBlocks, blocks_d := newBlocks,
                        history_d := updatedHistory,
                        currentIndex_d := length updatedHistory - 1\<rparr>))"

text \<open>
  The \<open>drop\<close> callback of the draft's \<open>Canvas\<close> (lines 87-90):
  \<^verbatim>\<open>useDrop(() => ({ accept: "block", drop: (item) => onDropBlock(item) }))\<close>.
  The specification is a factory without dependencies, so it is built once and keeps
  the \<open>onDropBlock\<close> of the first render, whose \<open>history\<close> is \<open>[[]]\<close> and whose
  \<open>currentIndex\<close> is 0.
\<close>

definition Canvas_drop_draft :: "Block_draft \<Rightarrow> state_draft \<Rightarrow> string option \<times> state_draft" where
  "Canvas_drop_draft item s =
     handleDropBlock_draft (history_d Home_init_draft) (currentIndex_d Home_init_draft) item s"

section \<open>Predicates of the statements\<close>

text \<open>The cursor is inside the history and the snapshot under it is the live list.\<close>

definition synced :: "state \<Rightarrow> bool" where
  "synced s = (currentIndex s < length (history s) \<and> history s ! currentIndex s = blocks s)"

text \<open>The events that go through the history: drops and the two buttons.\<close>

fun history_event :: "event \<Rightarrow> bool" where
  "history_event (Drop ty x y uuid) = True"
| "history_event UndoClick = True"
| "history_event RedoClick = True"
| "history_event (Move i x y) = False"
| "history_event (RightClick i) = False"

text \<open>A list of blocks with a \<open>blockB\<close> has a \<open>blockA\<close>.\<close>

definition dependency_ok :: "Block list \<Rightarrow> bool" where
  "dependency_ok bs =
     (list_ex (\<lambda>b. type_b b = blockB) bs \<longrightarrow> list_ex (\<lambda>b. type_b b = blockA) bs)"

definition dependency_inv :: "state \<Rightarrow> bool" where
  "dependency_inv s =
     (currentIndex s < length (history s) \<and> dependency_ok (blocks s)
      \<and> list_all dependency_ok (history s))"

text \<open>
  The distance \<open>updateConnections\<close> computes between two blocks: \<open>hypot\<close> of the
  differences of the offsets of their elements in \<open>refs\<close>, when both have one.
\<close>

definition computed_dist :: "(real \<Rightarrow> real \<Rightarrow> real) \<Rightarrow> refs \<Rightarrow> Block \<Rightarrow> Block \<Rightarrow> real option" where
  "computed_dist hypot refs a b =
     (case refs (id_b a) of
        None \<Rightarrow> None
      | Some aRef \<Rightarrow>
          (case refs (id_b b) of
             None \<Rightarrow> None
           | Some bRef \<Rightarrow>
               Some (hypot (of_int (offsetLeft aRef - offsetLeft bRef))
                           (of_int (offsetTop aRef - offsetTop bRef)))))"

text \<open>
  The block at index \<open>i\<close> of \<open>as\<close> is at computed distance \<open>d\<close> from \<open>b\<close>, no block of
  \<open>as\<close> has a smaller computed distance, and every earlier block of \<open>as\<close> has a
  strictly greater one.
\<close>

definition first_nearest ::
  "(real \<Rightarrow> real \<Rightarrow> real) \<Rightarrow> refs \<Rightarrow> Block list \<Rightarrow> Block \<Rightarrow> nat \<Rightarrow> real \<Rightarrow> bool" where
  "first_nearest hypot refs as b i d =
     (i < length as \<and> computed_dist hypot refs (as ! i) b = Some d
      \<and> (\<forall>j < length as. \<forall>d'. computed_dist hypot refs (as ! j) b = Some d' \<longrightarrow>
             d \<le> d' \<and> (j < i \<longrightarrow> d < d')))"

text \<open>
  The exact Euclidean norm, which \<open>Math.hypot\<close> approximates. It stands for \<open>hypot\<close>
  in the examples whose offsets differ along one axis only: there the scaled summation
  of V8 returns the exact value (10 for (10, 0), 25 for (25, 0) and for (-25, 0)).
\<close>

definition euclid :: "real \<Rightarrow> real \<Rightarrow> real" where
  "euclid u v = sqrt (u\<^sup>2 + v\<^sup>2)"

text \<open>
  The strings the calls of \<open>uuidv4()\<close> return in a session, in order: one call for
  every accepted drop. A rejected drop returns before the call and leaves the uuid of
  its event unused.
\<close>

fun uuid_call :: "event \<Rightarrow> state \<Rightarrow> string list" where
  "uuid_call (Drop ty x y uuid) s =
     (if fst (handleDropBlock ty x y uuid s) = None then [uuid] else [])"
| "uuid_call (Move i x y) s = []"
| "uuid_call (RightClick i) s = []"
| "uuid_call UndoClick s = []"
| "uuid_call RedoClick s = []"

fun uuid_calls :: "event list \<Rightarrow> state \<Rightarrow> string list" where
  "uuid_calls [] s = []"
| "uuid_calls (e # es) s =
     (case step e s of None \<Rightarrow> [] | Some s' \<Rightarrow> uuid_call e s @ uuid_calls es s')"

text \<open>The instances an event appends to the blocks, and all those a session creates.\<close>

fun new_instances :: "event \<Rightarrow> state \<Rightarrow> Block list" where
  "new_instances (Drop ty x y uuid) s =
     drop (length (blocks s)) (blocks (snd (handleDropBlock ty x y uuid s)))"
| "new_instances (Move i x y) s = []"
| "new_instances (RightClick i) s = []"
| "new_instances UndoClick s = []"
| "new_instances RedoClick s = []"

fun created :: "event list \<Rightarrow> state \<Rightarrow> Block list" where
  "created [] s = []"
| "created (e # es) s =
     (case step e s of None \<Rightarrow> [] | Some s' \<Rightarrow> new_instances e s @ created es s')"

text \<open>
  The cursor is inside the history, and the ids of the live blocks and of every snapshot
  are in \<open>U\<close>.
\<close>

definition ids_in :: "string set \<Rightarrow> state \<Rightarrow> bool" where
  "ids_in U s =
     (currentIndex s < length (history s)
      \<and> (\<forall>u \<in> set (map id_b (blocks s)). u \<in> U)
      \<and> (\<forall>snap \<in> set (history s). \<forall>u \<in> set (map id_b snap). u \<in> U))"

text \<open>The live blocks and every snapshot have pairwise distinct ids.\<close>

definition ids_distinct :: "state \<Rightarrow> bool" where
  "ids_distinct s =
     (distinct (map id_b (blocks s)) \<and> (\<forall>snap \<in> set (history s). distinct (map id_b snap)))"

section \<open>Example data\<close>

text \<open>A prerequisite at (10, 10) and a dependent at (20, 20), as two drops leave them.\<close>

definition example_drops :: "event list" where
  "example_drops = [Drop blockA 10 10 ''u0'', Drop blockB 20 20 ''u1'']"

definition example_canvas :: state where
  "example_canvas =
     \<lparr>blocks = [newBlock ''u0'' blockA 10 10, newBlock ''u1'' blockB 20 20],
      history = [[], [newBlock ''u0'' blockA 10 10],
                 [newBlock ''u0'' blockA 10 10, newBlock ''u1'' blockB 20 20]],
      currentIndex = 2,
      blocksRef = [newBlock ''u0'' blockA 10 10, newBlock ''u1'' blockB 20 20]\<rparr>"

text \<open>
  Registered elements: prerequisites \<open>a1\<close> at (0, 0) and \<open>a2\<close> at (50, 0), dependents
  \<open>b1\<close> at (60, 0) and \<open>b2\<close> at (25, 0); the dependent \<open>b3\<close> has no element in
  \<open>refs\<close> yet.
\<close>

definition example_refs :: refs where
  "example_refs =
     (\<lambda>i. if i = ''a1'' then Some \<lparr>offsetLeft = 0, offsetTop = 0\<rparr>
          else if i = ''a2'' then Some \<lparr>offsetLeft = 50, offsetTop = 0\<rparr>
          else if i = ''b1'' then Some \<lparr>offsetLeft = 60, offsetTop = 0\<rparr>
          else if i = ''b2'' then Some \<lparr>offsetLeft = 25, offsetTop = 0\<rparr>
          else None)"

text \<open>
  Registered elements with equal exact distances to the dependent \<open>b1\<close> at (0, 0):
  the prerequisites \<open>a1\<close> at (9, 2) and \<open>a2\<close> at (7, 6), both at the root of 85.
\<close>

definition example_refs_85 :: refs where
  "example_refs_85 =
     (\<lambda>i. if i = ''a1'' then Some \<lparr>offsetLeft = 9, offsetTop = 2\<rparr>
          else if i = ''a2'' then Some \<lparr>offsetLeft = 7, offsetTop = 6\<rparr>
          else if i = ''b1'' then Some \<lparr>offsetLeft = 0, offsetTop = 0\<rparr>
          else None)"

definition example_blocks :: "Block list" where
  "example_blocks =
     [newBlock ''a1'' blockA 0 0, newBlock ''a2'' blockA 50 0,
      newBlock ''b1'' blockB 60 0, newBlock ''b2'' blockB 25 0, newBlock ''b3'' blockB 70 0]"

text \<open>Two blocks \<open>p\<close> at (0, 0) and \<open>q\<close> at (100, 100) on the canvas.\<close>

definition example_two :: state where
  "example_two =
     \<lparr>blocks = [newBlock ''p'' blockA 0 0, newBlock ''q'' blockA 100 100],
      history = [[], [newBlock ''p'' blockA 0 0],
                 [newBlock ''p'' blockA 0 0, newBlock ''q'' blockA 100 100]],
      currentIndex = 2,
      blocksRef = [newBlock ''p'' blockA 0 0, newBlock ''q'' blockA 100 100]\<rparr>"

section \<open>The example data are states of the program\<close>

lemma example_canvas_reached: "run example_drops Home_init = Some example_canvas"
  by (simp add: example_drops_def Home_init_def example_canvas_def handleDropBlock_def
      commit_def Let_def newBlock_def)

lemma example_two_reached:
  "run [Drop blockA 0 0 ''p'', Drop blockA 100 100 ''q''] Home_init = Some example_two"
  by (simp add: Home_init_def example_two_def handleDropBlock_def commit_def Let_def
      newBlock_def)

section \<open>Placement validation\<close>

text \<open>
  C1. A drop of kind \<open>blockA\<close> (Prerequisite) is accepted in every state; a drop of kind
  \<open>blockB\<close> (Dependent) is accepted if and only if the current blocks contain a
  \<open>blockA\<close>; a rejected drop returns the state as it was, so the blocks, the history
  and the cursor are unchanged.
\<close>

theorem handleDropBlock_validation:
  "fst (handleDropBlock blockA x y uuid s) = None
   \<and> (fst (handleDropBlock blockB x y uuid s) = None
        \<longleftrightarrow> (\<exists>b \<in> set (blocks s). type_b b = blockA))
   \<and> (fst (handleDropBlock ty x y uuid s) \<noteq> None
        \<longrightarrow> fst (handleDropBlock ty x y uuid s) = Some ''Block B requires Block A first!''
            \<and> snd (handleDropBlock ty x y uuid s) = s)"
  by (simp add: handleDropBlock_def Let_def list_ex_iff)

theorem handleDropBlock_validation_witness:
  "fst (handleDropBlock blockB 20 20 ''u1'' Home_init) \<noteq> None
   \<and> snd (handleDropBlock blockB 20 20 ''u1'' Home_init) = Home_init
   \<and> blocks (snd (handleDropBlock blockB 20 20 ''u1'' Home_init)) = []
   \<and> history (snd (handleDropBlock blockB 20 20 ''u1'' Home_init)) = [[]]
   \<and> currentIndex (snd (handleDropBlock blockB 20 20 ''u1'' Home_init)) = 0
   \<and> fst (handleDropBlock blockA 10 10 ''u0'' Home_init) = None"
  using handleDropBlock_validation [where ty = blockB and x = 20 and y = 20
      and uuid = "''u1''" and s = Home_init]
    handleDropBlock_validation [where ty = blockA and x = 10 and y = 10
      and uuid = "''u0''" and s = Home_init]
  by (simp add: Home_init_def)

section \<open>The history: snapshots and cursor\<close>

lemma commit_synced: "blocks s = newBlocks \<Longrightarrow> synced (commit newBlocks s)"
  by (simp add: synced_def commit_def Let_def nth_append)

lemma handleDropBlock_synced: "synced s \<Longrightarrow> synced (snd (handleDropBlock ty x y uuid s))"
  by (simp add: handleDropBlock_def Let_def commit_synced)

lemma handleUndo_synced: "synced s \<Longrightarrow> \<exists>u. handleUndo s = Some u \<and> synced u"
  by (auto simp: handleUndo_def synced_def Let_def at_index_def)

lemma handleRedo_synced: "synced s \<Longrightarrow> \<exists>r. handleRedo s = Some r \<and> synced r"
  by (auto simp: handleRedo_def synced_def Let_def at_index_def)

lemma step_synced: "synced s \<Longrightarrow> history_event e \<Longrightarrow> \<exists>s'. step e s = Some s' \<and> synced s'"
  by (cases e) (simp_all add: handleDropBlock_synced handleUndo_synced handleRedo_synced)

lemma run_synced:
  "synced s \<Longrightarrow> list_all history_event es \<Longrightarrow> \<exists>s'. run es s = Some s' \<and> synced s'"
proof (induction es arbitrary: s)
  case Nil
  then show ?case by simp
next
  case (Cons e es)
  from Cons.prems obtain s1 where s1: "step e s = Some s1" "synced s1"
    using step_synced by fastforce
  from Cons.IH [OF s1(2)] Cons.prems(2) obtain s' where "run es s1 = Some s'" "synced s'"
    by auto
  with s1 show ?case by simp
qed

lemma Home_init_synced: "synced Home_init"
  by (simp add: synced_def Home_init_def)

text \<open>
  C2. From the initial state (one empty snapshot, cursor 0), after every sequence of
  drops, undos and redos the session is in a state whose cursor is inside the history
  and whose snapshot under the cursor equals the live list of blocks given to the
  canvas.
\<close>

theorem snapshot_at_cursor_is_live:
  "list_all history_event es \<Longrightarrow>
     \<exists>s. run es Home_init = Some s \<and> currentIndex s < length (history s)
          \<and> history s ! currentIndex s = blocks s"
  using run_synced [OF Home_init_synced, of es] by (simp add: synced_def)

theorem snapshot_at_cursor_is_live_witness:
  "list_all history_event [Drop blockA 10 10 ''u0'', Drop blockB 20 20 ''u1'', UndoClick]
   \<and> (\<exists>s. run [Drop blockA 10 10 ''u0'', Drop blockB 20 20 ''u1'', UndoClick] Home_init = Some s
          \<and> currentIndex s < length (history s) \<and> history s ! currentIndex s = blocks s)"
  using snapshot_at_cursor_is_live
    [of "[Drop blockA 10 10 ''u0'', Drop blockB 20 20 ''u1'', UndoClick]"]
  by simp

text \<open>
  C3. After an accepted drop (a commit of the blocks with the new block appended), undo
  returns a state and redo from it returns exactly the state the drop left: the same
  live blocks, cursor and snapshots. When the history was not empty, the undo moved the
  cursor one step back.
\<close>

theorem undo_redo_roundtrip:
  "fst (handleDropBlock ty x y uuid s) = None \<Longrightarrow>
     blocks (snd (handleDropBlock ty x y uuid s)) = blocks s @ [newBlock uuid ty x y]
     \<and> (\<exists>u. handleUndo (snd (handleDropBlock ty x y uuid s)) = Some u
            \<and> handleRedo u = Some (snd (handleDropBlock ty x y uuid s))
            \<and> (history s \<noteq> [] \<longrightarrow>
                 currentIndex u + 1 = currentIndex (snd (handleDropBlock ty x y uuid s))))"
  by (auto simp: handleDropBlock_def commit_def handleUndo_def handleRedo_def Let_def
      at_index_def nth_append min_def split: if_splits)

theorem undo_redo_roundtrip_witness:
  "fst (handleDropBlock blockA 10 10 ''u0'' Home_init) = None
   \<and> (\<exists>u. handleUndo (snd (handleDropBlock blockA 10 10 ''u0'' Home_init)) = Some u
          \<and> handleRedo u = Some (snd (handleDropBlock blockA 10 10 ''u0'' Home_init))
          \<and> currentIndex u = 0
          \<and> currentIndex (snd (handleDropBlock blockA 10 10 ''u0'' Home_init)) = 1)"
proof -
  have acc: "fst (handleDropBlock blockA 10 10 ''u0'' Home_init) = None"
    by (simp add: handleDropBlock_def Let_def)
  have idx: "currentIndex (snd (handleDropBlock blockA 10 10 ''u0'' Home_init)) = 1"
    by (simp add: handleDropBlock_def Let_def commit_def Home_init_def)
  have ne: "history Home_init \<noteq> []"
    by (simp add: Home_init_def)
  from undo_redo_roundtrip [OF acc] ne idx acc show ?thesis
    by auto
qed

text \<open>
  C4. The commit keeps the snapshots at indices 0..cursor, appends the new state and
  puts the cursor on the last index, and an accepted drop commits its new list of
  blocks in this way. With snapshots \<open>[s0, s1, s2]\<close> and cursor 2, undo gives cursor 1
  and a commit of \<open>s3\<close> then gives snapshots \<open>[s0, s1, s3]\<close> with cursor 2, after which
  redo changes nothing; the same holds for an accepted drop after the undo.
\<close>

theorem commit_truncates_redo_branch:
  "history (commit newState s) = take (currentIndex s + 1) (history s) @ [newState]
   \<and> currentIndex (commit newState s) = length (history (commit newState s)) - 1
   \<and> (fst (handleDropBlock ty x y uuid s) = None \<longrightarrow>
        history (snd (handleDropBlock ty x y uuid s))
          = take (currentIndex s + 1) (history s) @ [blocks (snd (handleDropBlock ty x y uuid s))]
        \<and> currentIndex (snd (handleDropBlock ty x y uuid s))
          = length (history (snd (handleDropBlock ty x y uuid s))) - 1)
   \<and> (history s = [s0, s1, s2] \<and> currentIndex s = 2 \<longrightarrow>
        (\<exists>u. handleUndo s = Some u \<and> currentIndex u = 1 \<and> blocks u = s1
           \<and> history (commit s3 u) = [s0, s1, s3]
           \<and> currentIndex (commit s3 u) = 2
           \<and> handleRedo (commit s3 u) = Some (commit s3 u)
           \<and> (fst (handleDropBlock ty x y uuid u) = None \<longrightarrow>
                history (snd (handleDropBlock ty x y uuid u))
                  = [s0, s1, blocks (snd (handleDropBlock ty x y uuid u))]
                \<and> currentIndex (snd (handleDropBlock ty x y uuid u)) = 2
                \<and> handleRedo (snd (handleDropBlock ty x y uuid u))
                  = Some (snd (handleDropBlock ty x y uuid u)))))"
  by (auto simp: handleDropBlock_def commit_def handleUndo_def handleRedo_def Let_def
      at_index_def split: if_splits)

theorem commit_truncates_redo_branch_witness:
  "history example_canvas
     = [[], [newBlock ''u0'' blockA 10 10],
        [newBlock ''u0'' blockA 10 10, newBlock ''u1'' blockB 20 20]]
   \<and> currentIndex example_canvas = 2
   \<and> (\<exists>u. handleUndo example_canvas = Some u \<and> currentIndex u = 1
          \<and> blocks u = [newBlock ''u0'' blockA 10 10]
          \<and> fst (handleDropBlock blockA 30 30 ''u2'' u) = None
          \<and> history (snd (handleDropBlock blockA 30 30 ''u2'' u))
               = [[], [newBlock ''u0'' blockA 10 10],
                  [newBlock ''u0'' blockA 10 10, newBlock ''u2'' blockA 30 30]]
          \<and> currentIndex (snd (handleDropBlock blockA 30 30 ''u2'' u)) = 2
          \<and> handleRedo (snd (handleDropBlock blockA 30 30 ''u2'' u))
               = Some (snd (handleDropBlock blockA 30 30 ''u2'' u)))"
proof -
  have h: "history example_canvas
     = [[], [newBlock ''u0'' blockA 10 10],
        [newBlock ''u0'' blockA 10 10, newBlock ''u1'' blockB 20 20]]
     \<and> currentIndex example_canvas = 2"
    by (simp add: example_canvas_def)
  from commit_truncates_redo_branch [where s = example_canvas and ty = blockA and x = 30
      and y = 30 and uuid = "''u2''" and ?s0.0 = "[]" and ?s1.0 = "[newBlock ''u0'' blockA 10 10]"
      and ?s2.0 = "[newBlock ''u0'' blockA 10 10, newBlock ''u1'' blockB 20 20]"
      and ?s3.0 = "[newBlock ''u0'' blockA 10 10, newBlock ''u2'' blockA 30 30]"
      and newState = "[]"] h
  obtain u where u: "handleUndo example_canvas = Some u" "currentIndex u = 1"
      "blocks u = [newBlock ''u0'' blockA 10 10]"
      "fst (handleDropBlock blockA 30 30 ''u2'' u) = None \<longrightarrow>
         history (snd (handleDropBlock blockA 30 30 ''u2'' u))
           = [[], [newBlock ''u0'' blockA 10 10], blocks (snd (handleDropBlock blockA 30 30 ''u2'' u))]
         \<and> currentIndex (snd (handleDropBlock blockA 30 30 ''u2'' u)) = 2
         \<and> handleRedo (snd (handleDropBlock blockA 30 30 ''u2'' u))
           = Some (snd (handleDropBlock blockA 30 30 ''u2'' u))"
    by auto
  have acc: "fst (handleDropBlock blockA 30 30 ''u2'' u) = None"
    by (simp add: handleDropBlock_def Let_def)
  have b: "blocks (snd (handleDropBlock blockA 30 30 ''u2'' u))
      = [newBlock ''u0'' blockA 10 10, newBlock ''u2'' blockA 30 30]"
    using u(3) by (simp add: handleDropBlock_def Let_def commit_def)
  from h u acc b show ?thesis by simp
qed

text \<open>
  C10. Undo and redo never change the snapshots: whatever state they return has the
  history it had before. Redo always returns a state, and undo does whenever the cursor
  is not beyond the history; at cursor 0 undo changes nothing, and at the last index redo
  changes nothing. After an undo that moved the cursor, redo is still possible and
  returns to the same cursor and the same snapshot.
\<close>

theorem undo_redo_keep_snapshots:
  "(\<forall>u. handleUndo s = Some u \<longrightarrow> history u = history s)
   \<and> (\<forall>r. handleRedo s = Some r \<longrightarrow> history r = history s)
   \<and> handleRedo s \<noteq> None
   \<and> (currentIndex s \<le> length (history s) \<longrightarrow> handleUndo s \<noteq> None)
   \<and> (currentIndex s = 0 \<longrightarrow> handleUndo s = Some s)
   \<and> (currentIndex s + 1 = length (history s) \<longrightarrow> handleRedo s = Some s)
   \<and> (0 < currentIndex s \<and> currentIndex s < length (history s) \<longrightarrow>
        (\<exists>u. handleUndo s = Some u \<and> currentIndex u + 1 = currentIndex s
           \<and> blocks u = history s ! currentIndex u
           \<and> (\<exists>r. handleRedo u = Some r \<and> currentIndex r = currentIndex s
                  \<and> blocks r = history s ! currentIndex s \<and> history r = history s)))"
  by (auto simp: handleUndo_def handleRedo_def Let_def at_index_def split: if_splits)

theorem undo_redo_keep_snapshots_witness:
  "0 < currentIndex example_canvas
   \<and> currentIndex example_canvas < length (history example_canvas)
   \<and> (\<exists>u. handleUndo example_canvas = Some u \<and> history u = history example_canvas
          \<and> currentIndex u = 1
          \<and> (\<exists>r. handleRedo u = Some r \<and> history r = history example_canvas
                 \<and> currentIndex r = 2 \<and> blocks r = blocks example_canvas))
   \<and> handleRedo example_canvas = Some example_canvas
   \<and> handleUndo Home_init = Some Home_init"
proof -
  have h: "0 < currentIndex example_canvas"
    "currentIndex example_canvas < length (history example_canvas)"
    "currentIndex example_canvas = 2"
    "currentIndex example_canvas + 1 = length (history example_canvas)"
    "history example_canvas ! 2 = blocks example_canvas"
    by (simp_all add: example_canvas_def)
  have z: "currentIndex Home_init = 0"
    by (simp add: Home_init_def)
  from undo_redo_keep_snapshots [of example_canvas] h(1,2)
  obtain u r where ur: "handleUndo example_canvas = Some u"
      "currentIndex u + 1 = currentIndex example_canvas"
      "handleRedo u = Some r" "currentIndex r = currentIndex example_canvas"
      "blocks r = history example_canvas ! currentIndex example_canvas"
      "history r = history example_canvas"
    by blast
  from undo_redo_keep_snapshots [of example_canvas] ur(1)
  have hu: "history u = history example_canvas" by blast
  from undo_redo_keep_snapshots [of example_canvas] h(4)
  have re: "handleRedo example_canvas = Some example_canvas" by blast
  from undo_redo_keep_snapshots [of Home_init] z
  have un: "handleUndo Home_init = Some Home_init" by blast
  from ur h hu re un show ?thesis by simp
qed

section \<open>The dependency rule in every state and snapshot\<close>

lemma dependency_ok_map:
  "(\<And>b. type_b (f b) = type_b b) \<Longrightarrow> dependency_ok (map f bs) = dependency_ok bs"
  by (simp add: dependency_ok_def list_ex_iff)

lemma moveBlock_dependency: "dependency_inv s \<Longrightarrow> dependency_inv (moveBlock i x y s)"
  by (simp add: dependency_inv_def moveBlock_def Let_def dependency_ok_map)

lemma toggleMessage_dependency: "dependency_inv s \<Longrightarrow> dependency_inv (toggleMessage i s)"
  by (simp add: dependency_inv_def toggleMessage_def dependency_ok_map)

lemma list_all_take: "list_all P xs \<Longrightarrow> list_all P (take n xs)"
  by (auto simp: list_all_iff dest: in_set_takeD)

lemma handleDropBlock_dependency:
  "dependency_inv s \<Longrightarrow> dependency_inv (snd (handleDropBlock ty x y uuid s))"
proof -
  assume inv: "dependency_inv s"
  show ?thesis
  proof (cases "ty = blockB \<and> \<not> list_ex (\<lambda>b. type_b b = blockA) (blocks s)")
    case True
    with inv show ?thesis by (simp add: handleDropBlock_def)
  next
    case False
    define nb where "nb = newBlock uuid ty x y"
    have ok: "dependency_ok (blocks s @ [nb])"
      using False by (cases ty) (auto simp: dependency_ok_def nb_def newBlock_def)
    have res: "snd (handleDropBlock ty x y uuid s)
             = commit (blocks s @ [nb]) (s\<lparr>blocks := blocks s @ [nb], blocksRef := blocks s @ [nb]\<rparr>)"
      using False by (auto simp: handleDropBlock_def Let_def nb_def)
    from inv ok show ?thesis
      unfolding res by (simp add: dependency_inv_def commit_def Let_def list_all_take)
  qed
qed

lemma handleUndo_dependency: "dependency_inv s \<Longrightarrow> \<exists>u. handleUndo s = Some u \<and> dependency_inv u"
  by (auto simp: handleUndo_def dependency_inv_def Let_def at_index_def list_all_length)

lemma handleRedo_dependency: "dependency_inv s \<Longrightarrow> \<exists>r. handleRedo s = Some r \<and> dependency_inv r"
  by (auto simp: handleRedo_def dependency_inv_def Let_def at_index_def list_all_length)

lemma step_dependency: "dependency_inv s \<Longrightarrow> \<exists>s'. step e s = Some s' \<and> dependency_inv s'"
  by (cases e) (simp_all add: handleDropBlock_dependency moveBlock_dependency
      toggleMessage_dependency handleUndo_dependency handleRedo_dependency)

lemma run_dependency: "dependency_inv s \<Longrightarrow> \<exists>s'. run es s = Some s' \<and> dependency_inv s'"
proof (induction es arbitrary: s)
  case Nil
  then show ?case by simp
next
  case (Cons e es)
  from step_dependency [OF Cons.prems] obtain s1 where
    s1: "step e s = Some s1" "dependency_inv s1"
    by blast
  from Cons.IH [OF s1(2)] s1(1) show ?case by simp
qed

text \<open>
  C6. Every sequence of drop, move, right-click, undo and redo events from the initial
  state ends in a state (no handler fails), and in that state the live blocks and every
  snapshot of the history contain a \<open>blockA\<close> (Prerequisite) whenever they contain a
  \<open>blockB\<close> (Dependent). A snapshot that was ever stored is in the history of the state
  reached by the events up to its commit.
\<close>

theorem dependent_needs_prerequisite:
  "\<exists>s. run es Home_init = Some s
      \<and> dependency_ok (blocks s) \<and> (\<forall>snap \<in> set (history s). dependency_ok snap)"
proof -
  have "dependency_inv Home_init"
    by (simp add: dependency_inv_def Home_init_def dependency_ok_def)
  from run_dependency [OF this, of es] show ?thesis
    by (auto simp: dependency_inv_def list_all_iff)
qed

theorem dependent_needs_prerequisite_witness:
  "\<exists>s. run example_drops Home_init = Some s
      \<and> list_ex (\<lambda>b. type_b b = blockB) (blocks s)
      \<and> list_ex (\<lambda>b. type_b b = blockA) (blocks s)
      \<and> list_ex (\<lambda>b. type_b b = blockB) (history s ! 2)
      \<and> list_ex (\<lambda>b. type_b b = blockA) (history s ! 2)"
proof -
  from dependent_needs_prerequisite [of example_drops] obtain s where
    s: "run example_drops Home_init = Some s" "dependency_ok (blocks s)"
      "\<forall>snap \<in> set (history s). dependency_ok snap"
    by blast
  from s(1) have eq: "s = example_canvas"
    by (simp add: example_canvas_reached)
  have b: "list_ex (\<lambda>b. type_b b = blockB) (blocks s)"
    "list_ex (\<lambda>b. type_b b = blockB) (history s ! 2)" "history s ! 2 \<in> set (history s)"
    unfolding eq by (simp_all add: example_canvas_def newBlock_def)
  from s(2) b(1) have "list_ex (\<lambda>b. type_b b = blockA) (blocks s)"
    by (simp add: dependency_ok_def)
  moreover from s(3) b(3) have "dependency_ok (history s ! 2)"
    by blast
  with b(2) have "list_ex (\<lambda>b. type_b b = blockA) (history s ! 2)"
    by (simp add: dependency_ok_def)
  ultimately show ?thesis
    using s(1) b(1,2) by blast
qed

section \<open>Moving a block\<close>

lemma map_move_absent:
  "i \<notin> id_b ` set bs \<Longrightarrow>
     map (\<lambda>block. if id_b block = i then block\<lparr>x_b := x, y_b := y\<rparr> else block) bs = bs"
  by (induction bs) auto

text \<open>
  C7. \<open>moveBlock\<close> keeps the number and order of the blocks; every block keeps its id,
  type, label and \<open>showMessage\<close>; a block with the given id gets the new \<open>x\<close> and \<open>y\<close>
  and every other block is unchanged; the history and the cursor are unchanged. With an
  id no block has, the blocks are unchanged: the only write is \<open>blocksRef.current\<close>,
  which receives the same blocks.
\<close>

theorem moveBlock_frame:
  "length (blocks (moveBlock i x y s)) = length (blocks s)
   \<and> (\<forall>k < length (blocks s).
        id_b (blocks (moveBlock i x y s) ! k) = id_b (blocks s ! k)
      \<and> type_b (blocks (moveBlock i x y s) ! k) = type_b (blocks s ! k)
      \<and> label (blocks (moveBlock i x y s) ! k) = label (blocks s ! k)
      \<and> showMessage (blocks (moveBlock i x y s) ! k) = showMessage (blocks s ! k)
      \<and> (id_b (blocks s ! k) = i \<longrightarrow>
           x_b (blocks (moveBlock i x y s) ! k) = x \<and> y_b (blocks (moveBlock i x y s) ! k) = y)
      \<and> (id_b (blocks s ! k) \<noteq> i \<longrightarrow> blocks (moveBlock i x y s) ! k = blocks s ! k))
   \<and> history (moveBlock i x y s) = history s
   \<and> currentIndex (moveBlock i x y s) = currentIndex s
   \<and> blocksRef (moveBlock i x y s) = blocks (moveBlock i x y s)
   \<and> (i \<notin> id_b ` set (blocks s) \<longrightarrow>
        blocks (moveBlock i x y s) = blocks s \<and> moveBlock i x y s = s\<lparr>blocksRef := blocks s\<rparr>)"
  by (auto simp: moveBlock_def Let_def map_move_absent)

theorem moveBlock_frame_witness:
  "(1::nat) < length (blocks example_canvas)
   \<and> id_b (blocks example_canvas ! 1) = ''u1''
   \<and> x_b (blocks (moveBlock ''u1'' 7 8 example_canvas) ! 1) = 7
   \<and> y_b (blocks (moveBlock ''u1'' 7 8 example_canvas) ! 1) = 8
   \<and> type_b (blocks (moveBlock ''u1'' 7 8 example_canvas) ! 1) = blockB
   \<and> blocks (moveBlock ''u1'' 7 8 example_canvas) ! 0 = blocks example_canvas ! 0
   \<and> history (moveBlock ''u1'' 7 8 example_canvas) = history example_canvas
   \<and> currentIndex (moveBlock ''u1'' 7 8 example_canvas) = 2
   \<and> blocks (moveBlock ''u9'' 7 8 example_canvas) = blocks example_canvas
   \<and> moveBlock ''u9'' 7 8 example_canvas = example_canvas"
proof -
  have h: "(1::nat) < length (blocks example_canvas)" "(0::nat) < length (blocks example_canvas)"
    "id_b (blocks example_canvas ! 1) = ''u1''" "id_b (blocks example_canvas ! 0) \<noteq> ''u1''"
    "type_b (blocks example_canvas ! 1) = blockB" "currentIndex example_canvas = 2"
    "''u9'' \<notin> id_b ` set (blocks example_canvas)"
    "example_canvas\<lparr>blocksRef := blocks example_canvas\<rparr> = example_canvas"
    by (simp_all add: example_canvas_def newBlock_def)
  from moveBlock_frame [of "''u1''" 7 8 example_canvas] h(1,2,3,4,5,6)
  have a: "x_b (blocks (moveBlock ''u1'' 7 8 example_canvas) ! 1) = 7"
    "y_b (blocks (moveBlock ''u1'' 7 8 example_canvas) ! 1) = 8"
    "type_b (blocks (moveBlock ''u1'' 7 8 example_canvas) ! 1) = blockB"
    "blocks (moveBlock ''u1'' 7 8 example_canvas) ! 0 = blocks example_canvas ! 0"
    "history (moveBlock ''u1'' 7 8 example_canvas) = history example_canvas"
    "currentIndex (moveBlock ''u1'' 7 8 example_canvas) = 2"
    by auto
  from moveBlock_frame [of "''u9''" 7 8 example_canvas] h(7,8)
  have b: "blocks (moveBlock ''u9'' 7 8 example_canvas) = blocks example_canvas"
    "moveBlock ''u9'' 7 8 example_canvas = example_canvas"
    by auto
  from h(1,3) a b show ?thesis by simp
qed

section \<open>Connections: the nearest prerequisite\<close>

lemma nearer_dist:
  "nearer hypot refs b nearest a =
     (case computed_dist hypot refs a b of
        None \<Rightarrow> nearest
      | Some d \<Rightarrow> (case nearest of
                     None \<Rightarrow> Some (a, d)
                   | Some n \<Rightarrow> if d < snd n then Some (a, d) else nearest))"
  by (simp add: nearer_def computed_dist_def Let_def split: option.splits)

lemma nearestA_snoc:
  "nearestA hypot refs (as @ [a]) b = nearer hypot refs b (nearestA hypot refs as b) a"
  by (simp add: nearestA_def)

lemma nearestA_None:
  "nearestA hypot refs as b = None \<longleftrightarrow> (\<forall>a \<in> set as. computed_dist hypot refs a b = None)"
proof (induction as rule: rev_induct)
  case Nil
  show ?case by (simp add: nearestA_def)
next
  case (snoc x xs)
  show ?case
    unfolding nearestA_snoc nearer_dist using snoc.IH
    by (auto split: option.splits)
qed

lemma nearestA_Some:
  "nearestA hypot refs as b = Some (a, d) \<Longrightarrow>
     \<exists>i. as ! i = a \<and> first_nearest hypot refs as b i d"
proof (induction as arbitrary: a d rule: rev_induct)
  case Nil
  then show ?case by (simp add: nearestA_def)
next
  case (snoc x xs)
  show ?case
  proof (cases "computed_dist hypot refs x b")
    case None
    with snoc.prems have "nearestA hypot refs xs b = Some (a, d)"
      by (simp add: nearestA_snoc nearer_dist)
    from snoc.IH [OF this] obtain i where i: "xs ! i = a" "first_nearest hypot refs xs b i d"
      by blast
    have "first_nearest hypot refs (xs @ [x]) b i d"
      using i(2) None by (auto simp: first_nearest_def nth_append less_Suc_eq)
    moreover have "(xs @ [x]) ! i = a"
      using i by (simp add: first_nearest_def nth_append)
    ultimately show ?thesis by blast
  next
    case (Some dx)
    show ?thesis
    proof (cases "nearestA hypot refs xs b")
      case None
      then have all: "\<forall>a \<in> set xs. computed_dist hypot refs a b = None"
        by (simp add: nearestA_None)
      from snoc.prems None Some have eq: "a = x" "d = dx"
        by (simp_all add: nearestA_snoc nearer_dist)
      have "first_nearest hypot refs (xs @ [x]) b (length xs) d"
        using all Some eq by (auto simp: first_nearest_def nth_append less_Suc_eq)
      then show ?thesis using eq by (intro exI [of _ "length xs"]) simp
    next
      case old: (Some n)
      obtain a0 d0 where n: "n = (a0, d0)" by (cases n)
      from snoc.IH [of a0 d0] old n obtain i where
        i: "xs ! i = a0" "first_nearest hypot refs xs b i d0"
        by blast
      show ?thesis
      proof (cases "dx < d0")
        case True
        with snoc.prems old n Some have eq: "a = x" "d = dx"
          by (simp_all add: nearestA_snoc nearer_dist)
        have "first_nearest hypot refs (xs @ [x]) b (length xs) d"
          using i(2) Some eq True
          by (fastforce simp: first_nearest_def nth_append less_Suc_eq)
        then show ?thesis using eq by (intro exI [of _ "length xs"]) simp
      next
        case False
        with snoc.prems old n Some have eq: "a = a0" "d = d0"
          by (simp_all add: nearestA_snoc nearer_dist)
        have "first_nearest hypot refs (xs @ [x]) b i d"
          using i(2) Some eq False
          by (auto simp: first_nearest_def nth_append less_Suc_eq)
        moreover have "(xs @ [x]) ! i = a"
          using i eq by (simp add: first_nearest_def nth_append)
        ultimately show ?thesis by blast
      qed
    qed
  qed
qed

lemma edges_targets:
  "map snd (concat (map (\<lambda>b. case f b of None \<Rightarrow> [] | Some n \<Rightarrow> [(fst n, b)]) bs))
     = filter (\<lambda>b. f b \<noteq> None) bs"
  by (induction bs) (auto split: option.splits)

lemma edges_member:
  "(a, b) \<in> set (concat (map (\<lambda>b. case f b of None \<Rightarrow> [] | Some n \<Rightarrow> [(fst n, b)]) bs))
     \<Longrightarrow> b \<in> set bs \<and> (\<exists>d. f b = Some (a, d))"
proof -
  assume "(a, b) \<in> set (concat (map (\<lambda>b. case f b of None \<Rightarrow> [] | Some n \<Rightarrow> [(fst n, b)]) bs))"
  then obtain c where c: "c \<in> set bs"
    "(a, b) \<in> set (case f c of None \<Rightarrow> [] | Some n \<Rightarrow> [(fst n, c)])"
    by auto
  then obtain n where n: "f c = Some n" "a = fst n" "b = c"
    by (cases "f c") auto
  with c(1) show ?thesis by (cases n) auto
qed

lemma example_edges:
  "updateConnections euclid example_blocks example_refs
     = [(newBlock ''a2'' blockA 50 0, newBlock ''b1'' blockB 60 0),
        (newBlock ''a1'' blockA 0 0, newBlock ''b2'' blockB 25 0)]"
  by (simp add: updateConnections_def nearestA_def nearer_def euclid_def example_refs_def
      example_blocks_def newBlock_def Let_def)

lemma example_tie:
  "computed_dist euclid example_refs (newBlock ''a1'' blockA 0 0) (newBlock ''b2'' blockB 25 0)
     = Some 25
   \<and> computed_dist euclid example_refs (newBlock ''a2'' blockA 50 0) (newBlock ''b2'' blockB 25 0)
     = Some 25"
proof -
  have "sqrt 625 = sqrt (25\<^sup>2)" by simp
  then have "sqrt 625 = 25" by (simp only: real_sqrt_abs)
  then show ?thesis
    by (simp add: computed_dist_def euclid_def example_refs_def newBlock_def)
qed

text \<open>
  The computed distances decide, not the exact ones. The prerequisites \<open>a1\<close> at (9, 2)
  and \<open>a2\<close> at (7, 6) are at the same exact distance from \<open>b1\<close> at (0, 0). Where the
  engine's \<open>Math.hypot\<close> returns a greater double for (9, 2) than for (7, 6) (the
  scaled summation of V8 gives 9.219544457292889 and 9.219544457292887), the edge goes
  to \<open>a2\<close>, inserted later.
\<close>

lemma later_prerequisite_when_hypot_differs:
  "euclid 9 2 = euclid 7 6
   \<and> (hypot 7 6 < hypot 9 2 \<longrightarrow>
        updateConnections hypot
          [newBlock ''a1'' blockA 9 2, newBlock ''a2'' blockA 7 6, newBlock ''b1'' blockB 0 0]
          example_refs_85
        = [(newBlock ''a2'' blockA 7 6, newBlock ''b1'' blockB 0 0)])"
  by (simp add: euclid_def updateConnections_def nearestA_def nearer_def example_refs_85_def
      newBlock_def Let_def)

text \<open>
  C5, with the guard on ids that have no element in \<open>refs\<close>, and with the distances as
  \<open>Math.hypot\<close> computes them, for every function \<open>hypot\<close> in its place. The targets of
  the edges are, in order and once each, the \<open>blockB\<close> (Dependent) blocks \<open>b\<close> whose id
  has an element in \<open>refs\<close> and for which the id of some \<open>blockA\<close> (Prerequisite) block
  has one: every other dependent gets no edge. The source of the edge of \<open>b\<close> is a
  \<open>blockA\<close> block whose computed distance to \<open>b\<close>, \<open>hypot\<close> of the differences of
  \<open>offsetLeft\<close> and \<open>offsetTop\<close>, is the least, and every \<open>blockA\<close> block inserted before
  it has a strictly greater computed distance: among those with equal computed distance
  the first inserted is chosen.
\<close>

theorem updateConnections_nearest:
  "map snd (updateConnections hypot blks refs)
     = filter (\<lambda>b. type_b b = blockB
                    \<and> (\<exists>a \<in> set blks. type_b a = blockA
                          \<and> computed_dist hypot refs a b \<noteq> None)) blks
   \<and> (\<forall>e \<in> set (updateConnections hypot blks refs).
         type_b (snd e) = blockB
         \<and> (\<exists>i d. filter (\<lambda>b. type_b b = blockA) blks ! i = fst e
                \<and> first_nearest hypot refs (filter (\<lambda>b. type_b b = blockA) blks) (snd e) i d))"
proof (intro conjI ballI)
  show "map snd (updateConnections hypot blks refs)
     = filter (\<lambda>b. type_b b = blockB
                    \<and> (\<exists>a \<in> set blks. type_b a = blockA
                          \<and> computed_dist hypot refs a b \<noteq> None)) blks"
    unfolding updateConnections_def Let_def edges_targets
    by (auto simp: nearestA_None intro!: filter_cong)
next
  fix e assume e: "e \<in> set (updateConnections hypot blks refs)"
  obtain a b where ab: "e = (a, b)" by (cases e)
  from e ab edges_member [of a b "nearestA hypot refs (filter (\<lambda>b. type_b b = blockA) blks)"
      "filter (\<lambda>b. type_b b = blockB) blks"]
  obtain d where b: "b \<in> set (filter (\<lambda>b. type_b b = blockB) blks)"
    and n: "nearestA hypot refs (filter (\<lambda>b. type_b b = blockA) blks) b = Some (a, d)"
    unfolding updateConnections_def Let_def by blast
  from b show "type_b (snd e) = blockB" by (simp add: ab)
  from nearestA_Some [OF n]
  show "\<exists>i d. filter (\<lambda>b. type_b b = blockA) blks ! i = fst e
                \<and> first_nearest hypot refs (filter (\<lambda>b. type_b b = blockA) blks) (snd e) i d"
    by (auto simp: ab)
qed

theorem updateConnections_nearest_witness:
  "map snd (updateConnections euclid example_blocks example_refs)
     = [newBlock ''b1'' blockB 60 0, newBlock ''b2'' blockB 25 0]
   \<and> (\<exists>i d. [newBlock ''a1'' blockA 0 0, newBlock ''a2'' blockA 50 0] ! i
               = newBlock ''a2'' blockA 50 0
          \<and> first_nearest euclid example_refs
               [newBlock ''a1'' blockA 0 0, newBlock ''a2'' blockA 50 0]
               (newBlock ''b1'' blockB 60 0) i d)
   \<and> (\<exists>i d. [newBlock ''a1'' blockA 0 0, newBlock ''a2'' blockA 50 0] ! i
               = newBlock ''a1'' blockA 0 0
          \<and> first_nearest euclid example_refs
               [newBlock ''a1'' blockA 0 0, newBlock ''a2'' blockA 50 0]
               (newBlock ''b2'' blockB 25 0) i d)
   \<and> computed_dist euclid example_refs (newBlock ''a1'' blockA 0 0) (newBlock ''b2'' blockB 25 0)
       = Some 25
   \<and> computed_dist euclid example_refs (newBlock ''a2'' blockA 50 0) (newBlock ''b2'' blockB 25 0)
       = Some 25"
proof -
  have m: "(newBlock ''a2'' blockA 50 0, newBlock ''b1'' blockB 60 0)
      \<in> set (updateConnections euclid example_blocks example_refs)"
    "(newBlock ''a1'' blockA 0 0, newBlock ''b2'' blockB 25 0)
      \<in> set (updateConnections euclid example_blocks example_refs)"
    by (simp_all add: example_edges)
  have f: "filter (\<lambda>b. type_b b = blockA) example_blocks
      = [newBlock ''a1'' blockA 0 0, newBlock ''a2'' blockA 50 0]"
    by (simp add: example_blocks_def newBlock_def)
  note t = updateConnections_nearest [of euclid example_blocks example_refs]
  from t have "map snd (updateConnections euclid example_blocks example_refs)
      = filter (\<lambda>b. type_b b = blockB
                    \<and> (\<exists>a \<in> set example_blocks.
                          type_b a = blockA \<and> computed_dist euclid example_refs a b \<noteq> None))
          example_blocks"
    by (rule conjunct1)
  also have "\<dots> = [newBlock ''b1'' blockB 60 0, newBlock ''b2'' blockB 25 0]"
    by (simp add: example_blocks_def newBlock_def computed_dist_def example_refs_def)
  finally have one: "map snd (updateConnections euclid example_blocks example_refs)
     = [newBlock ''b1'' blockB 60 0, newBlock ''b2'' blockB 25 0]" .
  from t m(1) have two: "\<exists>i d. filter (\<lambda>b. type_b b = blockA) example_blocks ! i
               = fst (newBlock ''a2'' blockA 50 0, newBlock ''b1'' blockB 60 0)
          \<and> first_nearest euclid example_refs (filter (\<lambda>b. type_b b = blockA) example_blocks)
               (snd (newBlock ''a2'' blockA 50 0, newBlock ''b1'' blockB 60 0)) i d"
    by blast
  from t m(2) have three: "\<exists>i d. filter (\<lambda>b. type_b b = blockA) example_blocks ! i
               = fst (newBlock ''a1'' blockA 0 0, newBlock ''b2'' blockB 25 0)
          \<and> first_nearest euclid example_refs (filter (\<lambda>b. type_b b = blockA) example_blocks)
               (snd (newBlock ''a1'' blockA 0 0, newBlock ''b2'' blockB 25 0)) i d"
    by blast
  from one two three example_tie show ?thesis
    unfolding f by simp
qed

text \<open>
  A prerequisite with an element in \<open>refs\<close> and a dependent without one: no edge.
\<close>

theorem updateConnections_unregistered_counterexample:
  "example_refs ''a1'' = Some \<lparr>offsetLeft = 0, offsetTop = 0\<rparr>
   \<and> example_refs ''b3'' = None
   \<and> updateConnections euclid [newBlock ''a1'' blockA 0 0, newBlock ''b3'' blockB 70 0]
        example_refs = []"
  by (simp add: updateConnections_def nearestA_def nearer_def example_refs_def newBlock_def
      Let_def)

section \<open>Dragging: the position a hover writes\<close>

lemma hover_mounted:
  "ref_current c = Some node \<Longrightarrow>
     hover c item_id (Some (dx, dy)) s
       = moveBlock item_id (fst (position_current c) + dx) (snd (position_current c) + dy) s"
  by (simp add: hover_def Let_def)

lemma hover_own_block:
  "blocks (hover (CanvasBlock_mount (newBlock ''p'' blockA 0 0) \<lparr>offsetLeft = 0, offsetTop = 0\<rparr>)
             ''p'' (Some (5, 5)) example_two)
     = [newBlock ''p'' blockA 5 5, newBlock ''q'' blockA 100 100]"
  by (simp add: hover_def CanvasBlock_mount_def moveBlock_def example_two_def newBlock_def
      Let_def)

text \<open>
  C8, at a hover over another block. With blocks \<open>p\<close> at (0, 0) and \<open>q\<close> at
  (100, 100) on the canvas, \<open>p\<close> is dragged and the pointer is over \<open>q\<close> with the
  difference (5, 5) from the initial offset: the \<open>hover\<close> callback of \<open>q\<close>'s component
  runs with \<open>item.id = p\<close> and writes \<open>q\<close>'s \<open>position.current\<close> plus the difference,
  (105, 105), as the position of \<open>p\<close>. The drag-start position of \<open>p\<close> plus the
  difference is (5, 5).
\<close>

theorem hover_over_other_block:
  "blocks (hover (CanvasBlock_mount (newBlock ''q'' blockA 100 100)
                    \<lparr>offsetLeft = 100, offsetTop = 100\<rparr>)
             ''p'' (Some (5, 5)) example_two)
     = [newBlock ''p'' blockA 105 105, newBlock ''q'' blockA 100 100]
   \<and> blocks example_two = [newBlock ''p'' blockA 0 0, newBlock ''q'' blockA 100 100]
   \<and> (x_b (newBlock ''p'' blockA 0 0) + 5, y_b (newBlock ''p'' blockA 0 0) + 5) = (5, 5)"
  by (simp add: hover_def CanvasBlock_mount_def moveBlock_def example_two_def newBlock_def
      Let_def)

section \<open>Instance ids\<close>

lemma new_instances_ids: "map id_b (new_instances e s) = uuid_call e s"
  by (cases e) (simp_all add: handleDropBlock_def commit_def Let_def newBlock_def)

lemma created_ids: "map id_b (created es s) = uuid_calls es s"
proof (induction es arbitrary: s)
  case Nil
  show ?case by simp
next
  case (Cons e es)
  show ?case
    by (cases "step e s") (simp_all add: new_instances_ids Cons.IH)
qed

lemma moveBlock_id_b: "map id_b (blocks (moveBlock i x y s)) = map id_b (blocks s)"
  by (auto simp: moveBlock_def Let_def)

lemma toggleMessage_id_b: "map id_b (blocks (toggleMessage i s)) = map id_b (blocks s)"
  by (auto simp: toggleMessage_def)

lemma moveBlock_history:
  "history (moveBlock i x y s) = history s \<and> currentIndex (moveBlock i x y s) = currentIndex s"
  by (simp add: moveBlock_def Let_def)

lemma toggleMessage_history:
  "history (toggleMessage i s) = history s \<and> currentIndex (toggleMessage i s) = currentIndex s"
  by (simp add: toggleMessage_def)

lemma moveBlock_ids:
  "ids_in U s \<Longrightarrow> ids_in U (moveBlock i x y s)"
  "ids_distinct s \<Longrightarrow> ids_distinct (moveBlock i x y s)"
  unfolding ids_in_def ids_distinct_def
  by (simp_all only: moveBlock_id_b moveBlock_history) simp_all

lemma toggleMessage_ids:
  "ids_in U s \<Longrightarrow> ids_in U (toggleMessage i s)"
  "ids_distinct s \<Longrightarrow> ids_distinct (toggleMessage i s)"
  unfolding ids_in_def ids_distinct_def
  by (simp_all only: toggleMessage_id_b toggleMessage_history) simp_all

lemma handleUndo_ids:
  "ids_in U s \<Longrightarrow> \<exists>u. handleUndo s = Some u \<and> ids_in U u
                         \<and> (ids_distinct s \<longrightarrow> ids_distinct u)"
  by (auto simp: handleUndo_def ids_in_def ids_distinct_def Let_def at_index_def)

lemma handleRedo_ids:
  "ids_in U s \<Longrightarrow> \<exists>r. handleRedo s = Some r \<and> ids_in U r
                         \<and> (ids_distinct s \<longrightarrow> ids_distinct r)"
  by (auto simp: handleRedo_def ids_in_def ids_distinct_def Let_def at_index_def)

lemma handleDropBlock_ids_in:
  "ids_in U s \<Longrightarrow>
     ids_in (U \<union> set (uuid_call (Drop ty x y uuid) s)) (snd (handleDropBlock ty x y uuid s))"
  by (auto simp: handleDropBlock_def commit_def Let_def ids_in_def newBlock_def
      dest!: in_set_takeD)

lemma handleDropBlock_ids_distinct:
  assumes "ids_in U s" and "ids_distinct s" and "set (uuid_call (Drop ty x y uuid) s) \<inter> U = {}"
  shows "ids_distinct (snd (handleDropBlock ty x y uuid s))"
proof (cases "fst (handleDropBlock ty x y uuid s) = None")
  case True
  with assms(3) have "uuid \<notin> U" by simp
  with assms(1) have fresh: "uuid \<notin> set (map id_b (blocks s))"
    by (auto simp: ids_in_def)
  from assms(2) fresh show ?thesis
    by (auto simp: handleDropBlock_def commit_def Let_def ids_distinct_def newBlock_def
        dest!: in_set_takeD)
next
  case False
  with assms(2) show ?thesis
    by (auto simp: handleDropBlock_def Let_def split: if_splits)
qed

lemma step_ids_in:
  assumes "ids_in U s"
  shows "\<exists>s'. step e s = Some s' \<and> ids_in (U \<union> set (uuid_call e s)) s'"
proof (cases e)
  case (Drop ty x y uuid)
  with handleDropBlock_ids_in [OF assms, of ty x y uuid] show ?thesis by simp
next
  case (Move i x y)
  with assms show ?thesis by (simp add: moveBlock_ids)
next
  case (RightClick i)
  with assms show ?thesis by (simp add: toggleMessage_ids)
next
  case UndoClick
  with handleUndo_ids [OF assms] show ?thesis by auto
next
  case RedoClick
  with handleRedo_ids [OF assms] show ?thesis by auto
qed

lemma step_ids_distinct:
  assumes "ids_in U s" and "ids_distinct s" and "set (uuid_call e s) \<inter> U = {}"
    and "step e s = Some s'"
  shows "ids_distinct s'"
proof (cases e)
  case (Drop ty x y uuid)
  with handleDropBlock_ids_distinct [OF assms(1,2), of ty x y uuid] assms(3,4)
  show ?thesis by auto
next
  case (Move i x y)
  with assms(2,4) show ?thesis by (auto simp: moveBlock_ids)
next
  case (RightClick i)
  with assms(2,4) show ?thesis by (auto simp: toggleMessage_ids)
next
  case UndoClick
  with handleUndo_ids [OF assms(1)] assms(2,4) show ?thesis by auto
next
  case RedoClick
  with handleRedo_ids [OF assms(1)] assms(2,4) show ?thesis by auto
qed

lemma run_ids_in:
  "ids_in U s \<Longrightarrow> \<exists>s'. run es s = Some s' \<and> ids_in (U \<union> set (uuid_calls es s)) s'"
proof (induction es arbitrary: s U)
  case Nil
  then show ?case by simp
next
  case (Cons e es)
  from step_ids_in [OF Cons.prems] obtain s1 where
    s1: "step e s = Some s1" "ids_in (U \<union> set (uuid_call e s)) s1"
    by blast
  from Cons.IH [OF s1(2)] obtain s' where
    s': "run es s1 = Some s'" "ids_in (U \<union> set (uuid_call e s) \<union> set (uuid_calls es s1)) s'"
    by blast
  have "U \<union> set (uuid_call e s) \<union> set (uuid_calls es s1) = U \<union> set (uuid_calls (e # es) s)"
    using s1(1) by auto
  with s' s1(1) show ?case by simp
qed

lemma run_ids_distinct:
  "ids_in U s \<Longrightarrow> ids_distinct s \<Longrightarrow> distinct (uuid_calls es s) \<Longrightarrow>
     set (uuid_calls es s) \<inter> U = {} \<Longrightarrow> run es s = Some s' \<Longrightarrow> ids_distinct s'"
proof (induction es arbitrary: s U)
  case Nil
  then show ?case by simp
next
  case (Cons e es)
  from step_ids_in [OF Cons.prems(1)] obtain s1 where
    s1: "step e s = Some s1" "ids_in (U \<union> set (uuid_call e s)) s1"
    by blast
  have calls: "uuid_calls (e # es) s = uuid_call e s @ uuid_calls es s1"
    using s1(1) by simp
  from Cons.prems(3,4) have d: "set (uuid_call e s) \<inter> U = {}" "distinct (uuid_calls es s1)"
    "set (uuid_calls es s1) \<inter> (U \<union> set (uuid_call e s)) = {}"
    unfolding calls by auto
  from step_ids_distinct [OF Cons.prems(1,2) d(1) s1(1)] have d1: "ids_distinct s1" .
  from Cons.prems(5) s1(1) have "run es s1 = Some s'" by simp
  from Cons.IH [OF s1(2) d1 d(2,3) this] show ?case .
qed

lemma example_created:
  "map id_b (created (Drop blockB 5 5 ''u9'' # example_drops) Home_init) = [''u0'', ''u1'']"
  by (simp add: example_drops_def Home_init_def handleDropBlock_def commit_def Let_def
      newBlock_def)

text \<open>
  C9, for the version of the page that draws the id with \<open>uuidv4()\<close>. The ids of the
  instances a session creates are, in order, the strings its calls of \<open>uuidv4()\<close>
  returned, one call for every accepted drop; so the created instances have pairwise
  distinct ids exactly when those strings are pairwise distinct. The session ends in a
  state, every block of that state and of every snapshot in its history has one of
  those strings as id, and when the strings are pairwise distinct the ids are pairwise
  distinct in the live blocks and in every snapshot.
\<close>

theorem created_ids_are_uuids_returned:
  "map id_b (created es Home_init) = uuid_calls es Home_init
   \<and> (distinct (map id_b (created es Home_init)) \<longleftrightarrow> distinct (uuid_calls es Home_init))
   \<and> (\<exists>s. run es Home_init = Some s
          \<and> (\<forall>b \<in> set (blocks s). id_b b \<in> set (uuid_calls es Home_init))
          \<and> (\<forall>snap \<in> set (history s). \<forall>b \<in> set snap. id_b b \<in> set (uuid_calls es Home_init))
          \<and> (distinct (uuid_calls es Home_init) \<longrightarrow>
                distinct (map id_b (blocks s))
                \<and> (\<forall>snap \<in> set (history s). distinct (map id_b snap))))"
proof -
  have i: "ids_in {} Home_init" and d: "ids_distinct Home_init"
    by (simp_all add: ids_in_def ids_distinct_def Home_init_def)
  from run_ids_in [OF i, of es] obtain s where
    s: "run es Home_init = Some s" "ids_in (set (uuid_calls es Home_init)) s"
    by auto
  have "distinct (uuid_calls es Home_init) \<longrightarrow> ids_distinct s"
    using run_ids_distinct [OF i d _ _ s(1)] by simp
  with s show ?thesis
    by (auto simp: created_ids ids_in_def ids_distinct_def)
qed

theorem created_ids_are_uuids_returned_witness:
  "uuid_calls (Drop blockB 5 5 ''u9'' # example_drops) Home_init = [''u0'', ''u1'']
   \<and> map id_b (created (Drop blockB 5 5 ''u9'' # example_drops) Home_init) = [''u0'', ''u1'']
   \<and> distinct (map id_b (created (Drop blockB 5 5 ''u9'' # example_drops) Home_init))
   \<and> (\<exists>s. run (Drop blockB 5 5 ''u9'' # example_drops) Home_init = Some s
          \<and> map id_b (blocks s) = [''u0'', ''u1'']
          \<and> distinct (map id_b (blocks s))
          \<and> distinct (map id_b (history s ! 2)))"
proof -
  note t = created_ids_are_uuids_returned [of "Drop blockB 5 5 ''u9'' # example_drops"]
  from t example_created
  have c: "uuid_calls (Drop blockB 5 5 ''u9'' # example_drops) Home_init = [''u0'', ''u1'']"
    by simp
  then have dc: "distinct (uuid_calls (Drop blockB 5 5 ''u9'' # example_drops) Home_init)"
    by simp
  with t have dd: "distinct (map id_b (created (Drop blockB 5 5 ''u9'' # example_drops) Home_init))"
    by blast
  from t dc obtain s where
    s: "run (Drop blockB 5 5 ''u9'' # example_drops) Home_init = Some s"
      "distinct (map id_b (blocks s))"
      "\<forall>snap \<in> set (history s). distinct (map id_b snap)"
    by blast
  have "run (Drop blockB 5 5 ''u9'' # example_drops) Home_init = Some example_canvas"
    using example_canvas_reached by (simp add: handleDropBlock_def Home_init_def)
  with s(1) have eq: "s = example_canvas" by simp
  then have h: "history s ! 2 \<in> set (history s)" "map id_b (blocks s) = [''u0'', ''u1'']"
    by (simp_all add: example_canvas_def newBlock_def)
  with s(3) have "distinct (map id_b (history s ! 2))"
    by blast
  with c dd s(1,2) h(2) example_created show ?thesis
    by auto
qed

text \<open>
  Two cases where instances share an id. In the earlier draft the instance is the
  palette entry itself: two drops of the entry \<open>blockA\<close> are both accepted and leave
  two instances with the id \<open>blockA\<close> (and the history \<open>[[], [A, A]]\<close> with cursor 1,
  through the closure of the first render). In the version with \<open>uuidv4()\<close> the handler
  adds no check of its own: two accepted drops for which the call returns the same
  string leave two instances with that string as id.
\<close>

theorem ids_repeat_counterexample:
  "fst (Canvas_drop_draft (BLOCKS_draft ! 0) Home_init_draft) = None
   \<and> fst (Canvas_drop_draft (BLOCKS_draft ! 0)
            (snd (Canvas_drop_draft (BLOCKS_draft ! 0) Home_init_draft))) = None
   \<and> map id_d (blocks_d (snd (Canvas_drop_draft (BLOCKS_draft ! 0)
            (snd (Canvas_drop_draft (BLOCKS_draft ! 0) Home_init_draft)))))
       = [''blockA'', ''blockA'']
   \<and> history_d (snd (Canvas_drop_draft (BLOCKS_draft ! 0)
            (snd (Canvas_drop_draft (BLOCKS_draft ! 0) Home_init_draft))))
       = [[], [BLOCKS_draft ! 0, BLOCKS_draft ! 0]]
   \<and> currentIndex_d (snd (Canvas_drop_draft (BLOCKS_draft ! 0)
            (snd (Canvas_drop_draft (BLOCKS_draft ! 0) Home_init_draft)))) = 1
   \<and> fst (handleDropBlock blockA 10 10 ''u0'' Home_init) = None
   \<and> fst (handleDropBlock blockA 30 30 ''u0''
            (snd (handleDropBlock blockA 10 10 ''u0'' Home_init))) = None
   \<and> map id_b (blocks (snd (handleDropBlock blockA 30 30 ''u0''
            (snd (handleDropBlock blockA 10 10 ''u0'' Home_init)))))
       = [''u0'', ''u0'']"
  by (simp add: Canvas_drop_draft_def handleDropBlock_draft_def BLOCKS_draft_def
      Home_init_draft_def handleDropBlock_def commit_def newBlock_def Home_init_def Let_def)

end
